theory Spec2Isabelle
  imports Complex_Main
begin

section \<open>Shallow embedding of \<open>segan/transforms.py\<close>\<close>

text \<open>
  Floating-point samples are modelled as real numbers, Python integers as \<open>int\<close> or
  \<open>nat\<close>.  Every random draw of the source is an explicit argument of the model, so a
  statement "for every sequence of draws" is a universally quantified theorem.  In
  \<open>Additive\<close> the arithmetic is that of the reals: rounding, infinities and NaN are not
  modelled, and where the source divides by a zero power the model's value is that of real
  division in HOL; no statement below depends on it.  In \<open>Chopper.__call__\<close>, where a
  sample is truncated to an integer and rounding decides the result, the single-precision
  operations are parameters of the model.
\<close>

subsection \<open>Errors and Python/numpy primitives\<close>

datatype error =
    ValueError_sample_rate        \<comment> \<open>\<open>ValueError('Sample rate must be 16kHz')\<close>\<close>
  | ValueError_noise_length       \<comment> \<open>\<open>ValueError('Noise length has to be greater than speech length!')\<close>\<close>
  | ValueError_broadcast          \<comment> \<open>numpy: operands could not be broadcast together\<close>
  | NotImplementedError           \<comment> \<open>\<open>NotImplementedError('Under construction!')\<close>\<close>
  | ValueError_empty_reduction   \<comment> \<open>numpy: zero-size array to reduction operation\<close>
  | ValueError_empty_choice      \<comment> \<open>\<open>np.random.choice\<close> on an empty population\<close>
  | IndexError
  | ZeroDivisionError
  | TypeError                    \<comment> \<open>\<open>len()\<close> of a value without a length, arithmetic on a tuple\<close>

text \<open>Python's \<open>int(x)\<close> on a float: truncation toward zero.\<close>

definition py_int :: "real \<Rightarrow> int" where
  "py_int x = (if 0 \<le> x then \<lfloor>x\<rfloor> else \<lceil>x\<rceil>)"

text \<open>\<open>np.round\<close>: round to nearest, ties to the even neighbour.\<close>

definition np_round :: "real \<Rightarrow> int" where
  "np_round x =
     (let f = \<lfloor>x\<rfloor>; d = x - of_int f
      in if d < 1 / 2 then f
         else if 1 / 2 < d then f + 1
         else if even f then f else f + 1)"

subsection \<open>\<open>PCompose\<close>\<close>










subsection \<open>numpy slicing and broadcasting\<close>

text \<open>
  A slice bound \<open>i\<close> against an array of length \<open>n\<close>, as numpy normalises it: a negative
  bound counts from the end, and the result is clipped to \<open>[0, n]\<close>.
\<close>

definition np_index :: "nat \<Rightarrow> int \<Rightarrow> nat" where
  "np_index n i = (if i < 0 then nat (max 0 (i + int n)) else min n (nat i))"

text \<open>\<open>xs[b:e]\<close>\<close>

definition np_slice :: "'a list \<Rightarrow> int \<Rightarrow> int \<Rightarrow> 'a list" where
  "np_slice xs b e =
     (let b' = np_index (length xs) b; e' = np_index (length xs) e
      in take (e' - b') (drop b' xs))"

text \<open>\<open>xs[b:e] = v\<close> on a copy of \<open>xs\<close>\<close>

definition np_slice_assign :: "'a list \<Rightarrow> int \<Rightarrow> int \<Rightarrow> 'a \<Rightarrow> 'a list" where
  "np_slice_assign xs b e v =
     (let b' = np_index (length xs) b; e' = np_index (length xs) e
      in map (\<lambda>(i, x). if b' \<le> i \<and> i < e' then v else x) (enumerate 0 xs))"

text \<open>
  \<open>xs + ys\<close> on one-dimensional arrays: elementwise when the lengths agree, an array of
  length 1 is broadcast, any other pair of lengths raises.
\<close>

definition np_add :: "real list \<Rightarrow> real list \<Rightarrow> error + real list" where
  "np_add xs ys =
     (if length xs = length ys then Inr (map2 (+) xs ys)
      else if length ys = 1 then Inr (map (\<lambda>x. x + hd ys) xs)
      else if length xs = 1 then Inr (map (\<lambda>y. hd xs + y) ys)
      else Inl ValueError_broadcast)"

definition dot :: "real list \<Rightarrow> real list \<Rightarrow> real" where
  "dot xs ys = sum_list (map2 (*) xs ys)"

subsection \<open>\<open>Additive\<close>: the active speech level (\<open>asl_P56\<close>, \<open>bin_interp\<close>)\<close>

record Additive =
  noises :: "(string \<times> real list) list"   \<comment> \<open>\<open>{'file': ..., 'data': ...}\<close>\<close>
  snr_levels :: "real list"
  do_IRS :: bool

text \<open>\<open>self.eps = 1e-22\<close>\<close>

definition eps :: real where
  "eps = 1 / 10 ^ 22"

text \<open>
  \<open>lfilter(b, [1, a1], x)\<close> with a one-tap numerator \<open>[b0]\<close>:
  \<open>y[n] = b0 * x[n] - a1 * y[n-1]\<close>, starting from rest.
\<close>

fun lfilter :: "real \<Rightarrow> real \<Rightarrow> real \<Rightarrow> real list \<Rightarrow> real list" where
  "lfilter b0 a1 prev [] = []"
| "lfilter b0 a1 prev (x # xs) = (let y = b0 * x - a1 * prev in y # lfilter b0 a1 y xs)"

text \<open>
  The inner loop of \<open>asl_P56\<close> for one envelope sample \<open>q[k]\<close>: thresholds in ascending
  order, stopping at the first threshold that is neither reached nor in hangover.
\<close>

fun thres_scan :: "real \<Rightarrow> real list \<Rightarrow> real \<Rightarrow> nat list \<Rightarrow> real list \<times> real list
                     \<Rightarrow> real list \<times> real list" where
  "thres_scan qk c I [] (a, hang) = (a, hang)"
| "thres_scan qk c I (j # js) (a, hang) =
     (if c ! j \<le> qk then thres_scan qk c I js (a[j := a ! j + 1], hang[j := 0])
      else if hang ! j < I then thres_scan qk c I js (a[j := a ! j + 1], hang[j := hang ! j + 1])
      else (a, hang))"

record bin_state =
  midcount :: real
  midthr :: real
  tol :: real
  iterno :: nat

text \<open>
  The body of the \<open>while True\<close> loop of \<open>bin_interp\<close> after its convergence test has
  failed: count the iteration, relax the tolerance after 20 of them, then move the midpoint.
\<close>

definition bin_step :: "real \<Rightarrow> real \<Rightarrow> real \<Rightarrow> real \<Rightarrow> real \<Rightarrow> bin_state \<Rightarrow> bin_state" where
  "bin_step upcount lwcount upthr lwthr Margin s =
     (let diff = midcount s - midthr s - Margin;
          iterno' = iterno s + 1;
          tol' = (if 20 < iterno' then tol s * (11 / 10) else tol s)
      in if tol' < diff
         then \<lparr>midcount = (upcount + midcount s) / 2, midthr = (upthr + midthr s) / 2,
               tol = tol', iterno = iterno'\<rparr>
         else if diff < - tol'
         then \<lparr>midcount = (midcount s - lwcount) / 2, midthr = (midthr s + lwthr) / 2,
               tol = tol', iterno = iterno'\<rparr>
         else \<lparr>midcount = midcount s, midthr = midthr s, tol = tol', iterno = iterno'\<rparr>)"

text \<open>The loop itself. It has no iteration bound in the source: \<open>None\<close> is "never returns".\<close>

partial_function (option) bin_loop ::
  "real \<Rightarrow> real \<Rightarrow> real \<Rightarrow> real \<Rightarrow> real \<Rightarrow> bin_state \<Rightarrow> (real \<times> real) option" where
  "bin_loop upcount lwcount upthr lwthr Margin s =
     (if \<bar>midcount s - midthr s - Margin\<bar> \<le> tol s then Some (midcount s, midthr s)
      else bin_loop upcount lwcount upthr lwthr Margin
             (bin_step upcount lwcount upthr lwthr Margin s))"

definition bin_interp ::
  "real \<Rightarrow> real \<Rightarrow> real \<Rightarrow> real \<Rightarrow> real \<Rightarrow> real \<Rightarrow> (real \<times> real) option" where
  "bin_interp upcount lwcount upthr lwthr Margin tol0 =
     (let tl = (if tol0 < 0 then - tol0 else tol0)
      in if \<bar>upcount - upthr - Margin\<bar> < tl then Some (lwcount, lwthr)
         else if \<bar>lwcount - lwthr - Margin\<bar> < tl then Some (lwcount, lwthr)
         else bin_loop upcount lwcount upthr lwthr Margin
                \<lparr>midcount = (upcount + lwcount) / 2, midthr = (upthr + lwthr) / 2,
                 tol = tl, iterno = 1\<rparr>)"

text \<open>
  The last loop of \<open>asl_P56\<close>: the first threshold \<open>j \<ge> 1\<close> with a non-zero count whose
  margin is at most \<open>M\<close> is interpolated, and the loop breaks.
\<close>

fun asl_search :: "real \<Rightarrow> nat \<Rightarrow> real \<Rightarrow> real list \<Rightarrow> real list \<Rightarrow> real list \<Rightarrow> nat list
                     \<Rightarrow> (real \<times> real \<times> real option) option" where
  "asl_search sq x_len M a AdB CdB [] = Some (0, 0, None)"
| "asl_search sq x_len M a AdB CdB (j # js) =
     (if a ! j \<noteq> 0 \<and> AdB ! j - CdB ! j \<le> M
      then (case bin_interp (AdB ! j) (AdB ! (j - 1)) (CdB ! j) (CdB ! (j - 1)) M (1 / 2) of
              None \<Rightarrow> None
            | Some (asl_ms_log, cl0) \<Rightarrow>
                (let asl_ms = 10 powr (asl_ms_log / 10)
                 in Some (asl_ms, (sq / real x_len) / asl_ms, Some (10 powr (cl0 / 20)))))
      else asl_search sq x_len M a AdB CdB js)"

text \<open>
  \<open>asl_P56(x, srate, nbits)\<close>: ITU-T P.56 method B.  The result is
  \<open>(asl_ms, asl, c0)\<close>; \<open>c0\<close> is \<open>None\<close> where the source returns \<open>None\<close>.  A sample rate of
  0 divides by zero in the smoothing factor, and a bit depth below 2 gives no threshold,
  so that \<open>a[0]\<close> is out of range.
\<close>

definition asl_P56 :: "real list \<Rightarrow> nat \<Rightarrow> nat \<Rightarrow> (error + real \<times> real \<times> real option) option" where
  "asl_P56 x srate nbits =
     (if srate = 0 then Some (Inl ZeroDivisionError)
      else
        (let T = 3 / 100; H = 2 / 10; M = 159 / 10;
             thres_no = nbits - 1;
             I = of_int \<lceil>real srate * H\<rceil>;
             g = exp (- 1 / (real srate * T));
             c = map (\<lambda>j. 2 ^ j / 2 ^ 15) [0..<thres_no];
             sq = dot x x;
             x_len = length x;
             p = lfilter (1 - g) (- g) 0 (map abs x);
             q = lfilter (1 - g) (- g) 0 p;
             (a, hang) = fold (\<lambda>qk. thres_scan qk c I [0..<thres_no]) q
                           (replicate (length c) 0, replicate (length c) I)
         in if thres_no = 0 then Some (Inl IndexError)
            else if a ! 0 = 0 then Some (Inr (0, 0, None))
            else
              (let AdB1 = 10 * log 10 (sq / a ! 0 + eps);
                   CdB1 = 20 * log 10 (c ! 0 + eps)
               in if AdB1 - CdB1 < M then Some (Inr (0, 0, None))
                  else
                    (let AdB = AdB1 # map (\<lambda>j. 10 * log 10 (sq / (a ! j + eps) + eps))
                                        [1..<length c];
                         CdB = CdB1 # map (\<lambda>j. 20 * log 10 (c ! j + eps)) [1..<length c]
                     in map_option Inr
                          (asl_search sq x_len M a AdB CdB [1..<length c])))))"

subsection \<open>\<open>Additive\<close>: adding the noise (\<open>addnoise_asl\<close>, \<open>__call__\<close>)\<close>

text \<open>\<open>Pn = np.dot(noise_segment.T, noise_segment) / x_len\<close>\<close>

definition noise_power :: "real list \<Rightarrow> nat \<Rightarrow> real" where
  "noise_power noise_segment x_len = dot noise_segment noise_segment / real x_len"

text \<open>\<open>sf = np.sqrt(Px / Pn / (10 ** (snr / 10)))\<close>\<close>

definition scale_factor :: "real \<Rightarrow> real \<Rightarrow> real \<Rightarrow> real" where
  "scale_factor Px Pn snr = sqrt (Px / Pn / (10 powr (snr / 10)))"

text \<open>
  \<open>rand_start = int(np.round((rand_start_limit - 1) * np.random.rand(1) + 1))\<close>, where
  \<open>u\<close> is the value of \<open>np.random.rand(1)\<close>, a float in \<open>[0, 1)\<close>.
\<close>

definition rand_start_of :: "nat \<Rightarrow> nat \<Rightarrow> real \<Rightarrow> int" where
  "rand_start_of noise_len x_len u =
     (let rand_start_limit = int noise_len - int x_len + 1
      in np_round ((of_int rand_start_limit - 1) * u + 1))"

text \<open>
  \<open>addnoise_asl\<close> returns \<open>(noisy, noise_bounds)\<close>.  The outer \<open>option\<close> is \<open>None\<close> when
  \<open>bin_interp\<close> inside \<open>asl_P56\<close> never returns.  With \<open>do_IRS\<close> the first statement,
  \<open>apply_IRS\<close>, raises \<open>NotImplementedError\<close>.
\<close>

definition addnoise_asl ::
  "real list \<Rightarrow> real list \<Rightarrow> nat \<Rightarrow> nat \<Rightarrow> real \<Rightarrow> bool \<Rightarrow> real
     \<Rightarrow> (error + real list \<times> int \<times> int) option" where
  "addnoise_asl clean noise srate nbits snr irs u =
     (if irs then Some (Inl NotImplementedError)
      else
        (case asl_P56 clean srate nbits of
           None \<Rightarrow> None
         | Some (Inl e) \<Rightarrow> Some (Inl e)
         | Some (Inr (Px, asl, c0)) \<Rightarrow>
             (let x = clean; x_len = length x; noise_len = length noise
              in if noise_len \<le> x_len then Some (Inl ValueError_noise_length)
                 else
                   (let rand_start = rand_start_of noise_len x_len u;
                        noise_segment = np_slice noise rand_start (rand_start + int x_len);
                        Pn = noise_power noise_segment x_len;
                        sf = scale_factor Px Pn snr;
                        noise_segment' = map (\<lambda>v. v * sf) noise_segment
                    in (case np_add x noise_segment' of
                          Inl e \<Rightarrow> Some (Inl e)
                        | Inr noisy \<Rightarrow> Some (Inr (noisy, rand_start, rand_start + int x_len)))))))"

text \<open>
  The normalisation loop of \<open>Additive.__call__\<close>; the state is \<open>(noisy, small)\<close>.  The loop
  has no iteration bound in the source: \<open>None\<close> is "never returns".
\<close>

definition out_of_range :: "real list \<Rightarrow> bool" where
  "out_of_range noisy = (1 \<le> Max (set noisy) \<or> Min (set noisy) < - 1)"

partial_function (option) declip_loop :: "real list \<Rightarrow> real \<Rightarrow> (real list \<times> real) option" where
  "declip_loop noisy small =
     (if out_of_range noisy
      then declip_loop (map (\<lambda>v. v / (1 + small)) noisy) (small + 1 / 10)
      else Some (noisy, small))"

text \<open>
  \<open>if np.max(noisy) >= 1 or np.min(noisy) < -1: small = 0.1; while ...\<close>.  \<open>np.max\<close> of an
  empty array raises.
\<close>

definition declip :: "real list \<Rightarrow> (error + real list) option" where
  "declip noisy =
     (if noisy = [] then Some (Inl ValueError_empty_reduction)
      else if out_of_range noisy
      then map_option (\<lambda>(noisy', small). Inr noisy') (declip_loop noisy (1 / 10))
      else Some (Inr noisy))"

text \<open>
  \<open>Additive.__call__\<close>.  The draws are \<open>noise_idx\<close> (an index into \<open>self.noises\<close>),
  \<open>snr_idx\<close> (the position of the chosen level in \<open>self.snr_levels\<close>) and \<open>u\<close>;
  \<open>np.random.choice\<close> raises on an empty list.
\<close>

definition Additive_call ::
  "Additive \<Rightarrow> nat \<Rightarrow> nat \<Rightarrow> real \<Rightarrow> real list \<Rightarrow> nat \<Rightarrow> nat \<Rightarrow> (error + real list) option" where
  "Additive_call self noise_idx snr_idx u wav srate nbits =
     (if noises self = [] \<or> snr_levels self = [] then Some (Inl ValueError_empty_choice)
      else
        (let sel_noise = noises self ! noise_idx;
             noise = snd sel_noise;
             snr = snr_levels self ! snr_idx
         in (case addnoise_asl wav noise srate nbits snr (do_IRS self) u of
               None \<Rightarrow> None
             | Some (Inl e) \<Rightarrow> Some (Inl e)
             | Some (Inr (noisy, noise_bound)) \<Rightarrow> declip noisy)))"

subsection \<open>Single-precision tensors and \<open>Scale\<close>\<close>

text \<open>
  \<open>Chopper.__call__\<close> works on \<open>torch.FloatTensor\<close> values: its divisions are
  single-precision operations of the external library, and so is the conversion
  \<open>astype(np.int16)\<close>.  They are parameters of the model.  \<open>f32_div ops v factor\<close> is the
  sample that \<open>tensor / factor\<close> yields for the sample \<open>v\<close> and the Python number whose
  exact value is \<open>factor\<close> (the rounding of the number itself included);
  \<open>astype_int16 ops v\<close> is the 16-bit integer that the conversion yields for \<open>v\<close>.
  The conversion of a 16-bit integer to single precision, \<open>astype(np.float32)\<close>, is exact.
\<close>

record float32_ops =
  f32_div :: "real \<Rightarrow> real \<Rightarrow> real"
  astype_int16 :: "real \<Rightarrow> int"

text \<open>
  What is known of these operations: a quotient of magnitude at most \<open>2^16\<close> is returned
  with a relative error of at most \<open>2^-20\<close> (single precision rounds to \<open>2^-24\<close>; the bound
  leaves room for the rounding of the factor and for a division carried out as a
  multiplication by the reciprocal) up to an underflow term, and a value within the
  16-bit range is truncated toward zero.
\<close>

definition f32_accurate :: "float32_ops \<Rightarrow> bool" where
  "f32_accurate ops =
     ((\<forall>a b. b \<noteq> 0 \<and> \<bar>a / b\<bar> \<le> 65536 \<longrightarrow>
          \<bar>f32_div ops a b - a / b\<bar> \<le> \<bar>a / b\<bar> / 2 ^ 20 + 1 / 2 ^ 100)
      \<and> (\<forall>v. \<bar>v\<bar> < 32768 \<longrightarrow> astype_int16 ops v = py_int v))"

text \<open>\<open>Scale(factor).__call__\<close>: \<open>tensor / self.factor\<close>\<close>

definition Scale_call :: "float32_ops \<Rightarrow> real \<Rightarrow> real list \<Rightarrow> real list" where
  "Scale_call ops factor tensor = map (\<lambda>v. f32_div ops v factor) tensor"

subsection \<open>\<open>Chopper\<close>\<close>

text \<open>
  \<open>vad\<close> is the frame classifier \<open>self.vad.is_speech(frame, srate)\<close> of the external
  \<open>webrtcvad\<close> package.  A speech region is the tuple
  \<open>(begin sample, center sample, duration)\<close>; the center comes from a float division.
\<close>

record Chopper =
  chop_factors :: "(real \<times> real) list"     \<comment> \<open>(mean, std) in seconds\<close>
  max_chops :: nat
  vad :: "int list \<Rightarrow> nat \<Rightarrow> bool"
  chop_report :: bool

type_synonym region = "int \<times> real \<times> int"

record vad_state =
  regions :: "region list"
  curr_region_counter :: int
  init :: "int option"

text \<open>\<open>range(0, n, step)\<close>\<close>

definition range_step :: "nat \<Rightarrow> nat \<Rightarrow> nat list" where
  "range_step n step = map (\<lambda>k. k * step) [0..<(n + step - 1) div step]"

text \<open>The body of the loop of \<open>vad_wav\<close> for the window that starts at \<open>beg_i\<close>.\<close>

definition vad_step :: "(int list \<Rightarrow> nat \<Rightarrow> bool) \<Rightarrow> int list \<Rightarrow> nat \<Rightarrow> nat \<Rightarrow> vad_state \<Rightarrow> vad_state" where
  "vad_step is_speech wav srate beg_i st =
     (let window_size = 160;
          frame = np_slice wav (int beg_i) (int beg_i + window_size)
      in if window_size \<le> int (length frame) \<and> is_speech frame srate
         then st\<lparr>curr_region_counter := curr_region_counter st + 1,
                 init := (case init st of None \<Rightarrow> Some (int beg_i) | Some i \<Rightarrow> Some i)\<rparr>
         else
           (case init st of
              Some i \<Rightarrow>
                (let end_sample = i + curr_region_counter st * window_size;
                     center_sample = of_int i + of_int (end_sample - i) / 2
                 in \<lparr>regions = regions st @ [(i, center_sample, curr_region_counter st * window_size)],
                     curr_region_counter = 0, init = None\<rparr>)
            | None \<Rightarrow> st\<lparr>curr_region_counter := 0, init := None\<rparr>))"

definition vad_wav :: "(int list \<Rightarrow> nat \<Rightarrow> bool) \<Rightarrow> int list \<Rightarrow> nat \<Rightarrow> error + region list" where
  "vad_wav is_speech wav srate =
     (if srate \<noteq> 16000 then Inl ValueError_sample_rate
      else Inr (regions (fold (vad_step is_speech wav srate) (range_step (length wav) 160)
                           \<lparr>regions = [], curr_region_counter = 0, init = None\<rparr>)))"

text \<open>
  The random draws of one call of \<open>chop_wav\<close>: \<open>d_chops\<close> is the value of
  \<open>np.random.choice(num_chops, 1)\<close>, \<open>d_idxs\<close> the array returned by
  \<open>np.random.choice(list(range(chops)), chops, replace=False)\<close>, and for the \<open>i\<close>-th chop
  \<open>d_factor i\<close> is the chop factor index and \<open>d_randn i\<close> the value of \<open>np.random.randn(1)\<close>.
\<close>

record chop_draws =
  d_chops :: nat
  d_idxs :: "nat list"
  d_factor :: "nat \<Rightarrow> nat"
  d_randn :: "nat \<Rightarrow> real"

text \<open>
  What \<open>np.random.choice(population, k, replace=False)\<close> can return: \<open>k\<close> distinct elements
  of the population.
\<close>

definition choice_no_replace :: "nat list \<Rightarrow> nat \<Rightarrow> nat list \<Rightarrow> bool" where
  "choice_no_replace population k xs = (length xs = k \<and> distinct xs \<and> set xs \<subseteq> set population)"

text \<open>The number of chops: the draw, trimmed to the available regions.\<close>

definition num_chops_of :: "chop_draws \<Rightarrow> region list \<Rightarrow> nat" where
  "num_chops_of ds speech_regions = min (d_chops ds) (length speech_regions)"

text \<open>The population the region indices are drawn from: \<open>list(range(chops))\<close>.\<close>

definition chop_population :: "nat \<Rightarrow> nat list" where
  "chop_population chops = [0..<chops]"

definition chop_idxs_of :: "chop_draws \<Rightarrow> region list \<Rightarrow> nat list" where
  "chop_idxs_of ds speech_regions =
     (let chops = num_chops_of ds speech_regions
      in if chops = 1 then [0] else d_idxs ds)"

text \<open>\<open>(chop_beg, chop_end)\<close> for one region, chop factor and normal draw.\<close>

definition chop_window :: "nat \<Rightarrow> region \<Rightarrow> real \<times> real \<Rightarrow> real \<Rightarrow> int \<times> int" where
  "chop_window srate region chop_factor randn =
     (case region of (reg_beg, reg_center, reg_dur) \<Rightarrow>
        (case chop_factor of (mean, std) \<Rightarrow>
           (let chop_dur = mean + randn * std;
                chop_s_dur = py_int (chop_dur * real srate);
                chop_beg = max (py_int (reg_center - of_int chop_s_dur / 2)) reg_beg;
                chop_end = min (py_int (reg_center + of_int chop_s_dur / 2)) (reg_beg + reg_dur)
            in (chop_beg, chop_end))))"

text \<open>
  The loop \<open>for chop_i in chop_idxs\<close>; \<open>i\<close> counts the iterations, to pick the draws.
  Indexing \<open>speech_regions\<close> out of range raises, and so does the choice of a chop factor
  from an empty list.
\<close>

fun chop_loop :: "(real \<times> real) list \<Rightarrow> nat \<Rightarrow> region list \<Rightarrow> chop_draws \<Rightarrow> nat \<Rightarrow> nat list
                    \<Rightarrow> int list \<Rightarrow> error + int list" where
  "chop_loop cfs srate speech_regions ds i [] chopped_wav = Inr chopped_wav"
| "chop_loop cfs srate speech_regions ds i (chop_i # rest) chopped_wav =
     (if length speech_regions \<le> chop_i then Inl IndexError
      else if cfs = [] then Inl ValueError_empty_choice
      else
        (let region = speech_regions ! chop_i;
             chop_factor = cfs ! d_factor ds i;
             (chop_beg, chop_end) = chop_window srate region chop_factor (d_randn ds i)
         in chop_loop cfs srate speech_regions ds (Suc i) rest
              (np_slice_assign chopped_wav chop_beg chop_end 0)))"

text \<open>The windows \<open>(chop_beg, chop_end)\<close> that the loop computes, in order.\<close>

fun chop_windows :: "(real \<times> real) list \<Rightarrow> nat \<Rightarrow> region list \<Rightarrow> chop_draws \<Rightarrow> nat \<Rightarrow> nat list
                       \<Rightarrow> (int \<times> int) list" where
  "chop_windows cfs srate speech_regions ds i [] = []"
| "chop_windows cfs srate speech_regions ds i (chop_i # rest) =
     chop_window srate (speech_regions ! chop_i) (cfs ! d_factor ds i) (d_randn ds i)
       # chop_windows cfs srate speech_regions ds (Suc i) rest"

definition chop_wav :: "Chopper \<Rightarrow> chop_draws \<Rightarrow> int list \<Rightarrow> nat \<Rightarrow> region list \<Rightarrow> error + int list" where
  "chop_wav self ds wav srate speech_regions =
     (if length speech_regions = 0 then Inr wav
      else if max_chops self = 0 then Inl ValueError_empty_choice
      else chop_loop (chop_factors self) srate speech_regions ds 0
             (chop_idxs_of ds speech_regions) wav)"

text \<open>
  \<open>Chopper.__call__\<close>: \<open>self.denormalizer = Scale(1. / ((2 ** 15) - 1))\<close> and
  \<open>self.normalizer = Scale((2 ** 15) - 1)\<close>.  The result is the chopped waveform and, with
  \<open>report\<close>, the speech regions.
\<close>

definition Chopper_call ::
  "float32_ops \<Rightarrow> Chopper \<Rightarrow> chop_draws \<Rightarrow> real list \<Rightarrow> nat
     \<Rightarrow> error + real list \<times> region list option" where
  "Chopper_call ops self ds wav srate =
     (let wav1 = Scale_call ops (1 / (2 ^ 15 - 1)) wav;
          wav2 = map (astype_int16 ops) wav1
      in (case vad_wav (vad self) wav2 srate of
            Inl e \<Rightarrow> Inl e
          | Inr speech_regions \<Rightarrow>
              (case chop_wav self ds wav2 srate speech_regions of
                 Inl e \<Rightarrow> Inl e
               | Inr chopped \<Rightarrow>
                   (let chopped' = Scale_call ops (2 ^ 15 - 1) (map of_int chopped)
                    in Inr (chopped', if chop_report self then Some speech_regions else None)))))"

section \<open>Properties\<close>

subsection \<open>\<open>PCompose\<close>\<close>






subsection \<open>\<open>Additive\<close>: the scale factor\<close>





subsection \<open>\<open>Additive\<close>: the bisection of \<open>bin_interp\<close>\<close>

text \<open>The branch \<open>diff > tol\<close> averages the midpoint with the upper bracket.\<close>

lemma bin_step_upper:
  assumes "(if 20 < iterno s + 1 then tol s * (11 / 10) else tol s) < midcount s - midthr s - Margin"
  shows "midcount (bin_step upcount lwcount upthr lwthr Margin s) = (upcount + midcount s) / 2"
    and "midthr (bin_step upcount lwcount upthr lwthr Margin s) = (upthr + midthr s) / 2"
  using assms by (simp_all add: bin_step_def Let_def)

text \<open>
  The branch \<open>diff < -tol\<close> halves the difference of the midpoint and the lower count; the
  threshold midpoint is averaged.
\<close>

lemma bin_step_lower:
  assumes "0 \<le> tol s"
    and "midcount s - midthr s - Margin < - (if 20 < iterno s + 1 then tol s * (11 / 10) else tol s)"
  shows "midcount (bin_step upcount lwcount upthr lwthr Margin s) = (midcount s - lwcount) / 2"
    and "midthr (bin_step upcount lwcount upthr lwthr Margin s) = (midthr s + lwthr) / 2"
  using assms by (auto simp add: bin_step_def Let_def split: if_splits)

text \<open>
  C4 does not hold of the code.  With the bracket \<open>(lwcount, lwthr) = (-24, -42)\<close>,
  \<open>(upcount, upthr) = (-23.9, -36)\<close>, margin 15.9 and tolerance 0.5, the first midpoint
  \<open>(-23.95, -39)\<close> has \<open>diff = -0.85 < -tol\<close>.  The next count midpoint is
  \<open>(midcount - lwcount) / 2 = 0.025\<close>, not the average \<open>-23.975\<close> of the midpoint and the
  lower count, and \<open>bin_interp\<close> returns the count \<open>-20.909375\<close>, outside the bracket
  \<open>[-24, -23.9]\<close>.
\<close>

theorem C4_lower_branch_not_average:
  "bin_step (- 239 / 10) (- 24) (- 36) (- 42) (159 / 10)
     \<lparr>midcount = - 479 / 20, midthr = - 39, tol = 1 / 2, iterno = 1\<rparr>
   = \<lparr>midcount = 1 / 40, midthr = - 81 / 2, tol = 1 / 2, iterno = 2\<rparr>
   \<and> (1 / 40 :: real) \<noteq> (- 479 / 20 + - 24) / 2
   \<and> bin_interp (- 239 / 10) (- 24) (- 36) (- 42) (159 / 10) (1 / 2)
       = Some (- 6691 / 320, - 585 / 16)"
  apply (simp add: bin_step_def bin_interp_def Let_def)
  apply (simp add: bin_loop.simps bin_step_def Let_def)
  done

subsection \<open>\<open>Chopper\<close>: the choice of the regions to chop\<close>

lemma choice_no_replace_all:
  assumes "choice_no_replace [0..<k] k xs"
  shows "set xs = {0..<k}"
proof -
  from assms have l: "length xs = k" and d: "distinct xs" and s: "set xs \<subseteq> {0..<k}"
    by (simp_all add: choice_no_replace_def)
  have "card (set xs) = k" using l d by (simp add: distinct_card)
  then have "card (set xs) = card {0..<k}" by simp
  with s show ?thesis by (simp add: card_subset_eq)
qed

text \<open>
  C2 does not hold of the code.  The indices are drawn from \<open>list(range(chops))\<close>, not
  from the indices of all regions: whenever more than one chop is made, the selected
  indices are exactly \<open>0, ..., chops - 1\<close> (in the drawn order), and when the drawn count
  is below the number of regions the last region index is never selected.
\<close>

theorem C2_indices_are_first_chops:
  assumes "choice_no_replace (chop_population (num_chops_of ds regs)) (num_chops_of ds regs) (d_idxs ds)"
      and "1 < num_chops_of ds regs"
  shows "set (chop_idxs_of ds regs) = {0..<num_chops_of ds regs}
         \<and> (d_chops ds < length regs \<longrightarrow> length regs - 1 \<notin> set (chop_idxs_of ds regs))"
proof -
  have "set (d_idxs ds) = {0..<num_chops_of ds regs}"
    using assms(1) unfolding chop_population_def by (rule choice_no_replace_all)
  moreover have "chop_idxs_of ds regs = d_idxs ds"
    using assms(2) by (simp add: chop_idxs_of_def Let_def)
  ultimately have eq: "set (chop_idxs_of ds regs) = {0..<num_chops_of ds regs}" by simp
  have "d_chops ds < length regs \<longrightarrow> length regs - 1 \<notin> {0..<num_chops_of ds regs}"
    by (auto simp add: num_chops_of_def)
  with eq show ?thesis by simp
qed

theorem C2_indices_are_first_chops_witness:
  "set (chop_idxs_of \<lparr>d_chops = 2, d_idxs = [1, 0], d_factor = (\<lambda>i. 0), d_randn = (\<lambda>i. 0)\<rparr>
          [(0, 80, 160), (320, 400, 160), (640, 720, 160)])
     = {0..<num_chops_of \<lparr>d_chops = 2, d_idxs = [1, 0], d_factor = (\<lambda>i. 0), d_randn = (\<lambda>i. 0)\<rparr>
          [(0, 80, 160), (320, 400, 160), (640, 720, 160)]}
   \<and> 2 \<notin> set (chop_idxs_of \<lparr>d_chops = 2, d_idxs = [1, 0], d_factor = (\<lambda>i. 0), d_randn = (\<lambda>i. 0)\<rparr>
          [(0, 80, 160), (320, 400, 160), (640, 720, 160)])"
  using C2_indices_are_first_chops
    [of "\<lparr>d_chops = 2, d_idxs = [1, 0], d_factor = (\<lambda>i. 0), d_randn = (\<lambda>i. 0)\<rparr>"
        "[(0, 80, 160), (320, 400, 160), (640, 720, 160)]"]
  by (simp add: choice_no_replace_def chop_population_def num_chops_of_def)

subsection \<open>\<open>Chopper\<close>: region detection\<close>

lemma range_step_1920: "range_step 1920 160 = [0, 160, 320, 480, 640, 800, 960, 1120, 1280, 1440, 1600, 1760]"
  by (simp add: range_step_def upt_rec)

lemma length_window:
  assumes "b + 160 \<le> length wav"
  shows "length (np_slice wav (int b) (int b + 160)) = 160"
  using assms by (simp add: np_slice_def np_index_def Let_def)

lemma length_window_short:
  assumes "length wav < b + 160"
  shows "length (np_slice wav (int b) (int b + 160)) < 160"
  using assms by (simp add: np_slice_def np_index_def Let_def)

lemma vad_step_speech:
  assumes "b + 160 \<le> length wav" and "is_speech (np_slice wav (int b) (int b + 160)) srate"
  shows "vad_step is_speech wav srate b st =
           st\<lparr>curr_region_counter := curr_region_counter st + 1,
              init := (case init st of None \<Rightarrow> Some (int b) | Some i \<Rightarrow> Some i)\<rparr>"
  using assms by (simp add: vad_step_def Let_def length_window)

lemma vad_step_close:
  assumes "length wav < b + 160 \<or> \<not> is_speech (np_slice wav (int b) (int b + 160)) srate"
  shows "vad_step is_speech wav srate b st =
           (case init st of
              Some i \<Rightarrow> \<lparr>regions = regions st @
                            [(i, of_int i + of_int (curr_region_counter st * 160) / 2,
                              curr_region_counter st * 160)],
                         curr_region_counter = 0, init = None\<rparr>
            | None \<Rightarrow> st\<lparr>curr_region_counter := 0, init := None\<rparr>)"
proof -
  have "\<not> (160 \<le> int (length (np_slice wav (int b) (int b + 160)))
           \<and> is_speech (np_slice wav (int b) (int b + 160)) srate)"
    using assms length_window_short [of wav b] by auto
  then show ?thesis
    by (auto simp add: vad_step_def Let_def split: option.splits)
qed

lemma range_step_1920_plus:
  assumes "1920 < n" "n < 2080"
  shows "range_step n 160 = [0, 160, 320, 480, 640, 800, 960, 1120, 1280, 1440, 1600, 1760, 1920]"
proof -
  have "(n + 160 - 1) div 160 = 13" using assms by simp
  then show ?thesis by (simp add: range_step_def upt_rec)
qed

text \<open>
  C1 does not hold of the code.  Let the twelve full 160-sample windows of \<open>wav\<close> classify
  as 5 speech, 3 silence, 4 speech.  When \<open>wav\<close> has exactly 1920 samples the loop of
  \<open>vad_wav\<close> ends with the second run still open and never emits it: the result is the
  single region \<open>(0, 400, 800)\<close>.  Only when a trailing partial window follows (1921 to
  2079 samples) is the second run closed and \<open>(1280, 1600, 640)\<close> emitted as well.
\<close>

theorem C1_final_run:
  assumes cls: "\<forall>k<12. is_speech (np_slice wav (int (k * 160)) (int (k * 160) + 160)) 16000
                    = (k < 5 \<or> 8 \<le> k)"
  shows "(length wav = 1920 \<longrightarrow> vad_wav is_speech wav 16000 = Inr [(0, 400, 800)])
       \<and> (1920 < length wav \<and> length wav < 2080 \<longrightarrow>
            vad_wav is_speech wav 16000 = Inr [(0, 400, 800), (1280, 1600, 640)])"
proof -
  note w = cls [rule_format, of 0, simplified] cls [rule_format, of 1, simplified]
    cls [rule_format, of 2, simplified] cls [rule_format, of 3, simplified]
    cls [rule_format, of 4, simplified] cls [rule_format, of 5, simplified]
    cls [rule_format, of 6, simplified] cls [rule_format, of 7, simplified]
    cls [rule_format, of 8, simplified] cls [rule_format, of 9, simplified]
    cls [rule_format, of 10, simplified] cls [rule_format, of 11, simplified]
  show ?thesis
  proof (intro conjI impI)
    assume n: "length wav = 1920"
    show "vad_wav is_speech wav 16000 = Inr [(0, 400, 800)]"
      using n w
      by (simp add: vad_wav_def range_step_1920 vad_step_speech vad_step_close)
  next
    assume n: "1920 < length wav \<and> length wav < 2080"
    then have r: "range_step (length wav) 160
        = [0, 160, 320, 480, 640, 800, 960, 1120, 1280, 1440, 1600, 1760, 1920]"
      by (simp add: range_step_1920_plus)
    show "vad_wav is_speech wav 16000 = Inr [(0, 400, 800), (1280, 1600, 640)]"
      using n w
      by (simp add: vad_wav_def r vad_step_speech vad_step_close)
  qed
qed

lemma less_12_cases:
  assumes "k < (12::nat)"
  shows "k = 0 \<or> k = 1 \<or> k = 2 \<or> k = 3 \<or> k = 4 \<or> k = 5 \<or> k = 6 \<or> k = 7 \<or> k = 8 \<or> k = 9
         \<or> k = 10 \<or> k = 11"
  using assms by arith

theorem C1_final_run_witness:
  "vad_wav (\<lambda>frame srate. 0 < sum_list frame)
     (replicate 800 1 @ replicate 480 0 @ replicate 640 1) 16000 = Inr [(0, 400, 800)]
   \<and> vad_wav (\<lambda>frame srate. 0 < sum_list frame)
     (replicate 800 1 @ replicate 480 0 @ replicate 640 1 @ [0]) 16000
       = Inr [(0, 400, 800), (1280, 1600, 640)]"
proof -
  let ?v = "\<lambda>(frame :: int list) (srate :: nat). 0 < sum_list frame"
  let ?w1 = "replicate 800 1 @ replicate 480 0 @ replicate 640 (1::int)"
  let ?w2 = "replicate 800 1 @ replicate 480 0 @ replicate 640 1 @ [0::int]"
  have h1: "\<forall>k<12. ?v (np_slice ?w1 (int (k * 160)) (int (k * 160) + 160)) 16000
                = (k < 5 \<or> 8 \<le> k)"
  proof (intro allI impI)
    fix k :: nat assume "k < 12"
    from less_12_cases [OF this]
    show "?v (np_slice ?w1 (int (k * 160)) (int (k * 160) + 160)) 16000 = (k < 5 \<or> 8 \<le> k)"
      by (elim disjE) (simp_all add: np_slice_def np_index_def sum_list_replicate)
  qed
  have h2: "\<forall>k<12. ?v (np_slice ?w2 (int (k * 160)) (int (k * 160) + 160)) 16000
                = (k < 5 \<or> 8 \<le> k)"
  proof (intro allI impI)
    fix k :: nat assume "k < 12"
    from less_12_cases [OF this]
    show "?v (np_slice ?w2 (int (k * 160)) (int (k * 160) + 160)) 16000 = (k < 5 \<or> 8 \<le> k)"
      by (elim disjE) (simp_all add: np_slice_def np_index_def sum_list_replicate)
  qed
  show ?thesis
    using C1_final_run [OF h1] C1_final_run [OF h2] by simp
qed

subsection \<open>\<open>Chopper\<close>: what a chop changes\<close>

text \<open>
  C10 does not hold of the code.  The chop duration is drawn from a normal distribution
  and can be negative; then \<open>chop_end\<close> can be negative, and numpy reads a negative slice
  bound from the end of the array.  For the region \<open>(0, 80.0, 160)\<close>, the chop factor
  \<open>(0.05, 0.025)\<close> and a normal draw of \<open>-3.0\<close> the window is
  \<open>(chop_beg, chop_end) = (280, -120)\<close>, an empty interval, but in a buffer of 1000 samples
  \<open>chopped_wav[280:-120] = 0\<close> zeroes the samples 280 to 879: sample 500, outside the
  window and outside the region, is changed from 7 to 0.
\<close>

theorem C10_negative_end_wraps:
  "chop_window 16000 (0, 80, 160) (1 / 20, 1 / 40) (- 3) = (280, - 120)
   \<and> chop_wav \<lparr>chop_factors = [(1 / 20, 1 / 40), (1 / 10, 1 / 20)], max_chops = 2,
                vad = (\<lambda>frame srate. True), chop_report = False\<rparr>
        \<lparr>d_chops = 1, d_idxs = [], d_factor = (\<lambda>i. 0), d_randn = (\<lambda>i. - 3)\<rparr>
        (replicate 1000 7) 16000 [(0, 80, 160)]
       = Inr (np_slice_assign (replicate 1000 7) 280 (- 120) 0)
   \<and> np_slice_assign (replicate 1000 (7::int)) 280 (- 120) 0 ! 500 = 0
   \<and> replicate 1000 (7::int) ! 500 = 7"
proof -
  have w: "chop_window 16000 (0, 80, 160) (1 / 20, 1 / 40) (- 3) = (280, - 120)"
    by (simp add: chop_window_def py_int_def Let_def)
  show ?thesis
    by (simp add: w chop_wav_def chop_idxs_of_def num_chops_of_def np_slice_assign_def
        np_index_def Let_def nth_enumerate_eq)
qed

subsection \<open>\<open>Additive\<close>: \<open>asl_P56\<close> returns\<close>

lemma bin_step_tol:
  "tol (bin_step upcount lwcount upthr lwthr Margin s)
     = (if 20 < iterno s + 1 then tol s * (11 / 10) else tol s)"
  by (simp add: bin_step_def Let_def)

lemma bin_step_iterno:
  "iterno (bin_step upcount lwcount upthr lwthr Margin s) = iterno s + 1"
  by (simp add: bin_step_def Let_def)

lemma half_sum_bound: "\<bar>a\<bar> \<le> B \<Longrightarrow> \<bar>b\<bar> \<le> B \<Longrightarrow> \<bar>(a + b) / 2\<bar> \<le> (B::real)"
  by argo

lemma half_diff_bound: "\<bar>a\<bar> \<le> B \<Longrightarrow> \<bar>b\<bar> \<le> B \<Longrightarrow> \<bar>(a - b) / 2\<bar> \<le> (B::real)"
  by argo

lemma bin_step_midcount_bound:
  assumes "\<bar>upcount\<bar> \<le> B" "\<bar>lwcount\<bar> \<le> B" "\<bar>midcount s\<bar> \<le> B"
  shows "\<bar>midcount (bin_step upcount lwcount upthr lwthr Margin s)\<bar> \<le> B"
  using assms half_sum_bound [of upcount B "midcount s"] half_diff_bound [of "midcount s" B lwcount]
  by (simp add: bin_step_def Let_def)

lemma bin_step_midthr_bound:
  assumes "\<bar>upthr\<bar> \<le> B" "\<bar>lwthr\<bar> \<le> B" "\<bar>midthr s\<bar> \<le> B"
  shows "\<bar>midthr (bin_step upcount lwcount upthr lwthr Margin s)\<bar> \<le> B"
  using assms half_sum_bound [of upthr B "midthr s"] half_sum_bound [of "midthr s" B lwthr]
  by (simp add: bin_step_def Let_def)

text \<open>
  The loop of \<open>bin_interp\<close> returns whenever the tolerance is positive: the midpoints stay
  within the bounds of the bracket, so \<open>diff\<close> is bounded, and from the 20th iteration on
  the tolerance grows by 10 percent per iteration.
\<close>

lemma bin_loop_returns_aux:
  assumes b: "\<bar>upcount\<bar> \<le> Bc" "\<bar>lwcount\<bar> \<le> Bc" "\<bar>upthr\<bar> \<le> Bt" "\<bar>lwthr\<bar> \<le> Bt"
  shows "\<bar>midcount s\<bar> \<le> Bc \<Longrightarrow> \<bar>midthr s\<bar> \<le> Bt \<Longrightarrow> 0 < tol s
         \<Longrightarrow> Bc + Bt + \<bar>Margin\<bar> \<le> tol s * (11 / 10) ^ k \<Longrightarrow> (20 - iterno s) + k \<le> N
         \<Longrightarrow> \<exists>r. bin_loop upcount lwcount upthr lwthr Margin s = Some r"
proof (induction N arbitrary: s k)
  case 0
  then have k: "k = 0" by simp
  have "\<bar>midcount s - midthr s - Margin\<bar> \<le> Bc + Bt + \<bar>Margin\<bar>"
    using "0.prems"(1,2) by linarith
  also have "\<dots> \<le> tol s" using "0.prems"(4) k by simp
  finally show ?case by (subst bin_loop.simps) simp
next
  case (Suc N)
  let ?d = "midcount s - midthr s - Margin"
  let ?s' = "bin_step upcount lwcount upthr lwthr Margin s"
  have dle: "\<bar>?d\<bar> \<le> Bc + Bt + \<bar>Margin\<bar>" using Suc.prems(1,2) by linarith
  show ?case
  proof (cases "\<bar>?d\<bar> \<le> tol s")
    case True
    then show ?thesis by (subst bin_loop.simps) simp
  next
    case False
    have mc: "\<bar>midcount ?s'\<bar> \<le> Bc" using b(1,2) Suc.prems(1) by (rule bin_step_midcount_bound)
    have mt: "\<bar>midthr ?s'\<bar> \<le> Bt" using b(3,4) Suc.prems(2) by (rule bin_step_midthr_bound)
    have tp: "0 < tol ?s'" using Suc.prems(3) by (simp add: bin_step_tol)
    have "\<exists>k'. Bc + Bt + \<bar>Margin\<bar> \<le> tol ?s' * (11 / 10) ^ k' \<and> (20 - iterno ?s') + k' \<le> N"
    proof (cases "20 < iterno s + 1")
      case True
      have "k \<noteq> 0"
      proof
        assume "k = 0"
        then have "Bc + Bt + \<bar>Margin\<bar> \<le> tol s" using Suc.prems(4) by simp
        with dle False show False by linarith
      qed
      then obtain k' where k': "k = Suc k'" by (cases k) auto
      have "Bc + Bt + \<bar>Margin\<bar> \<le> tol ?s' * (11 / 10) ^ k'"
        using Suc.prems(4) True by (simp add: bin_step_tol k' mult.assoc)
      moreover have "(20 - iterno ?s') + k' \<le> N"
        using Suc.prems(5) True by (simp add: bin_step_iterno k')
      ultimately show ?thesis by blast
    next
      case F2: False
      have "Bc + Bt + \<bar>Margin\<bar> \<le> tol ?s' * (11 / 10) ^ k"
        using Suc.prems(4) F2 by (simp add: bin_step_tol)
      moreover have "(20 - iterno ?s') + k \<le> N"
        using Suc.prems(5) F2 by (simp add: bin_step_iterno)
      ultimately show ?thesis by blast
    qed
    then obtain k' where "Bc + Bt + \<bar>Margin\<bar> \<le> tol ?s' * (11 / 10) ^ k'"
      and "(20 - iterno ?s') + k' \<le> N" by blast
    from Suc.IH [OF mc mt tp this]
    obtain r where "bin_loop upcount lwcount upthr lwthr Margin ?s' = Some r" by blast
    with False show ?thesis by (subst bin_loop.simps) simp
  qed
qed

lemma bin_loop_returns:
  assumes "0 < tol s"
  shows "\<exists>r. bin_loop upcount lwcount upthr lwthr Margin s = Some r"
proof -
  define Bc where "Bc = max \<bar>upcount\<bar> (max \<bar>lwcount\<bar> \<bar>midcount s\<bar>)"
  define Bt where "Bt = max \<bar>upthr\<bar> (max \<bar>lwthr\<bar> \<bar>midthr s\<bar>)"
  have b: "\<bar>upcount\<bar> \<le> Bc" "\<bar>lwcount\<bar> \<le> Bc" "\<bar>upthr\<bar> \<le> Bt" "\<bar>lwthr\<bar> \<le> Bt"
    "\<bar>midcount s\<bar> \<le> Bc" "\<bar>midthr s\<bar> \<le> Bt"
    by (simp_all add: Bc_def Bt_def)
  obtain k where k: "(Bc + Bt + \<bar>Margin\<bar>) / tol s < (11 / 10) ^ k"
    using real_arch_pow [of "11 / 10" "(Bc + Bt + \<bar>Margin\<bar>) / tol s"] by auto
  have "Bc + Bt + \<bar>Margin\<bar> \<le> tol s * (11 / 10) ^ k"
    using k assms by (simp add: field_simps)
  from bin_loop_returns_aux [OF b(1-4) b(5) b(6) assms this, of "(20 - iterno s) + k"]
  show ?thesis by simp
qed

lemma bin_interp_returns:
  assumes "tol0 \<noteq> 0"
  shows "\<exists>r. bin_interp upcount lwcount upthr lwthr Margin tol0 = Some r"
proof -
  define tl where "tl = (if tol0 < 0 then - tol0 else tol0)"
  define s0 where "s0 = \<lparr>midcount = (upcount + lwcount) / 2, midthr = (upthr + lwthr) / 2,
                         tol = tl, iterno = 1\<rparr>"
  have "0 < tol s0" using assms by (simp add: tl_def s0_def)
  then obtain r where r: "bin_loop upcount lwcount upthr lwthr Margin s0 = Some r"
    using bin_loop_returns by blast
  have "bin_interp upcount lwcount upthr lwthr Margin tol0 =
          (if \<bar>upcount - upthr - Margin\<bar> < tl then Some (lwcount, lwthr)
           else if \<bar>lwcount - lwthr - Margin\<bar> < tl then Some (lwcount, lwthr)
           else bin_loop upcount lwcount upthr lwthr Margin s0)"
    by (simp add: bin_interp_def Let_def tl_def s0_def)
  with r show ?thesis by simp
qed

lemma asl_search_returns:
  "\<exists>r. asl_search sq x_len M a AdB CdB js = Some r"
proof (induction js)
  case Nil
  then show ?case by simp
next
  case (Cons j js)
  obtain r where "bin_interp (AdB ! j) (AdB ! (j - 1)) (CdB ! j) (CdB ! (j - 1)) M (1 / 2) = Some r"
    using bin_interp_returns [of "1 / 2"] by fastforce
  then show ?case using Cons by (cases r) (simp add: Let_def)
qed

lemma asl_P56_returns:
  assumes "0 < srate" and "2 \<le> nbits"
  shows "\<exists>r. asl_P56 x srate nbits = Some (Inr r)"
proof -
  have "\<And>sq x_len M a AdB CdB js. \<exists>r. map_option Inr (asl_search sq x_len M a AdB CdB js)
          = (Some (Inr r) :: (error + real \<times> real \<times> real option) option)"
    using asl_search_returns by (metis option.simps(9))
  then show ?thesis
    using assms by (simp add: asl_P56_def Let_def split: prod.splits)
qed

subsection \<open>\<open>Additive\<close>: the noise-length error\<close>

lemma np_add_error: "np_add xs ys = Inl e \<Longrightarrow> e = ValueError_broadcast"
  by (auto simp add: np_add_def split: if_splits)

lemma addnoise_asl_noise_length:
  assumes "0 < srate" "2 \<le> nbits"
  shows "(addnoise_asl clean noise srate nbits snr False u = Some (Inl ValueError_noise_length))
           = (length noise \<le> length clean)"
proof -
  obtain Px asl c0 where r: "asl_P56 clean srate nbits = Some (Inr (Px, asl, c0))"
    using asl_P56_returns [OF assms, of clean] by (metis prod_cases3)
  show ?thesis
    by (auto simp add: addnoise_asl_def r Let_def split: sum.splits dest: np_add_error)
qed

lemma declip_not_noise_length: "declip noisy \<noteq> Some (Inl ValueError_noise_length)"
  by (auto simp add: declip_def split: if_splits)

text \<open>
  C8 (amended): with the telephone-filter flag \<open>do_IRS\<close> off, a positive sample rate and
  a bit depth of at least 2, for every clean buffer and every selected noise buffer the
  call raises the noise-length error if and only if the noise is not longer than the clean
  buffer; when it does, no output buffer is returned.
\<close>

theorem C8_noise_length_error:
  assumes "\<not> do_IRS self" and "0 < srate" and "2 \<le> nbits"
      and "noise_idx < length (noises self)" and "snr_idx < length (snr_levels self)"
  shows "(Additive_call self noise_idx snr_idx u wav srate nbits = Some (Inl ValueError_noise_length))
           = (length (snd (noises self ! noise_idx)) \<le> length wav)
       \<and> (length (snd (noises self ! noise_idx)) \<le> length wav \<longrightarrow>
            (\<forall>out. Additive_call self noise_idx snr_idx u wav srate nbits \<noteq> Some (Inr out)))"
proof -
  let ?noise = "snd (noises self ! noise_idx)"
  let ?snr = "snr_levels self ! snr_idx"
  have ne: "noises self \<noteq> []" "snr_levels self \<noteq> []" using assms(4,5) by auto
  have a: "(addnoise_asl wav ?noise srate nbits ?snr False u = Some (Inl ValueError_noise_length))
             = (length ?noise \<le> length wav)"
    using assms(2,3) by (rule addnoise_asl_noise_length)
  have c: "Additive_call self noise_idx snr_idx u wav srate nbits =
            (case addnoise_asl wav ?noise srate nbits ?snr False u of
               None \<Rightarrow> None
             | Some (Inl e) \<Rightarrow> Some (Inl e)
             | Some (Inr (noisy, noise_bound)) \<Rightarrow> declip noisy)"
    using ne assms(1) by (simp add: Additive_call_def Let_def)
  have iff: "(Additive_call self noise_idx snr_idx u wav srate nbits = Some (Inl ValueError_noise_length))
           = (length ?noise \<le> length wav)"
    unfolding c a [symmetric]
    using declip_not_noise_length by (auto split: option.splits sum.splits)
  then show ?thesis by auto
qed

theorem C8_noise_length_error_witness:
  "(Additive_call \<lparr>noises = [(''n.wav'', [1 / 10])], snr_levels = [0, 5, 10], do_IRS = False\<rparr>
      0 1 0 [1 / 2, - 1 / 2] 16000 16 = Some (Inl ValueError_noise_length))
   \<and> (Additive_call \<lparr>noises = [(''n.wav'', [1 / 10, 2 / 10, 1 / 10])], snr_levels = [0, 5, 10],
         do_IRS = False\<rparr> 0 1 0 [1 / 2, - 1 / 2] 16000 16 \<noteq> Some (Inl ValueError_noise_length))"
  using C8_noise_length_error
     [of "\<lparr>noises = [(''n.wav'', [1 / 10])], snr_levels = [0, 5, 10], do_IRS = False\<rparr>"
         16000 16 0 1 0 "[1 / 2, - 1 / 2]"]
    C8_noise_length_error
     [of "\<lparr>noises = [(''n.wav'', [1 / 10, 2 / 10, 1 / 10])], snr_levels = [0, 5, 10], do_IRS = False\<rparr>"
         16000 16 0 1 0 "[1 / 2, - 1 / 2]"]
  by simp

text \<open>
  C8, as stated, fails with \<open>do_IRS\<close> set: \<open>apply_IRS\<close> raises \<open>NotImplementedError\<close>
  before the lengths are compared, so a noise buffer shorter than the clean buffer does
  not raise the noise-length error.
\<close>

theorem C8_irs_counterexample:
  "Additive_call \<lparr>noises = [(''n.wav'', [1 / 10])], snr_levels = [0, 5, 10], do_IRS = True\<rparr>
      0 1 0 [1 / 2, - 1 / 2] 16000 16 = Some (Inl NotImplementedError)
   \<and> length [1 / 10 :: real] \<le> length [1 / 2, - 1 / 2 :: real]
   \<and> NotImplementedError \<noteq> ValueError_noise_length"
  by (simp add: Additive_call_def addnoise_asl_def)

subsection \<open>\<open>Additive\<close>: the noise segment\<close>

lemma np_round_bounds: "\<lfloor>x\<rfloor> \<le> np_round x \<and> np_round x \<le> \<lfloor>x\<rfloor> + 1"
  by (simp add: np_round_def Let_def)

lemma rand_start_range:
  assumes "0 \<le> u" "u < 1" "x_len < noise_len"
  shows "1 \<le> rand_start_of noise_len x_len u
       \<and> rand_start_of noise_len x_len u \<le> int noise_len - int x_len + 1"
proof -
  let ?d = "real_of_int (int noise_len - int x_len + 1) - 1"
  let ?x = "?d * u + 1"
  have d: "0 < ?d" using assms(3) by simp
  have "0 \<le> ?d * u" using d assms(1) by simp
  then have lo: "1 \<le> ?x" by linarith
  have "?d * u < ?d" using d assms(2) by simp
  then have hi: "?x < of_int (int noise_len - int x_len + 1)" by linarith
  have "1 \<le> \<lfloor>?x\<rfloor>" using lo by linarith
  moreover have "\<lfloor>?x\<rfloor> < int noise_len - int x_len + 1" using hi by (simp only: floor_less_iff)
  moreover have "\<lfloor>?x\<rfloor> \<le> np_round ?x" "np_round ?x \<le> \<lfloor>?x\<rfloor> + 1"
    using np_round_bounds [of ?x] by blast+
  ultimately show ?thesis
    unfolding rand_start_of_def Let_def by linarith
qed

lemma segment_length:
  assumes "1 \<le> rs" "x_len < length noise"
  shows "length (np_slice noise rs (rs + int x_len)) =
           (if rs \<le> int (length noise) - int x_len then x_len
            else length noise - nat rs)"
  using assms by (auto simp add: np_slice_def np_index_def Let_def)

lemma segment_length_last:
  assumes "x_len < length noise"
  shows "length (np_slice noise (int (length noise) - int x_len + 1)
                   (int (length noise) - int x_len + 1 + int x_len)) = x_len - 1"
  using assms by (auto simp add: np_slice_def np_index_def Let_def)

lemma np_add_mismatch:
  assumes "length xs \<noteq> length ys" "length ys \<noteq> 1" "length xs \<noteq> 1"
  shows "np_add xs ys = Inl ValueError_broadcast"
  using assms by (simp add: np_add_def)

text \<open>
  C5 does not hold of the code.  The start index is rounded into
  \<open>[1, noise_len - x_len + 1]\<close> (the range of a 1-based index) and then used as a 0-based
  index.  Whenever the draw rounds to the last value \<open>noise_len - x_len + 1\<close>, the slice
  \<open>noise[rand_start:rand_start + x_len]\<close> runs past the end of the noise and has only
  \<open>x_len - 1\<close> samples; for a clean buffer of at least 3 samples \<open>x + noise_segment\<close> then
  raises and no noisy buffer is returned.
\<close>

theorem C5_last_start_short_segment:
  assumes "length clean < length noise" and "3 \<le> length clean"
      and "0 < srate" and "2 \<le> nbits"
      and "rand_start_of (length noise) (length clean) u
             = int (length noise) - int (length clean) + 1"
  shows "length (np_slice noise (rand_start_of (length noise) (length clean) u)
                   (rand_start_of (length noise) (length clean) u + int (length clean)))
           = length clean - 1
       \<and> addnoise_asl clean noise srate nbits snr False u = Some (Inl ValueError_broadcast)"
proof -
  let ?rs = "rand_start_of (length noise) (length clean) u"
  let ?seg = "np_slice noise ?rs (?rs + int (length clean))"
  obtain Px asl c0 where r: "asl_P56 clean srate nbits = Some (Inr (Px, asl, c0))"
    using asl_P56_returns [OF assms(3,4), of clean] by (metis prod_cases3)
  have len: "length ?seg = length clean - 1"
    unfolding assms(5) using assms(1) by (rule segment_length_last)
  have "np_add clean (map (\<lambda>v. v * scale_factor Px (noise_power ?seg (length clean)) snr) ?seg)
          = Inl ValueError_broadcast"
    using len assms(2) by (intro np_add_mismatch) simp_all
  then have "addnoise_asl clean noise srate nbits snr False u = Some (Inl ValueError_broadcast)"
    using assms(1) by (simp add: addnoise_asl_def r Let_def)
  with len show ?thesis by simp
qed

theorem C5_last_start_short_segment_witness:
  "rand_start_of 5 3 (9 / 10) = 3
   \<and> length (np_slice [1 / 10, - 1 / 10, 2 / 10, - 2 / 10, 1 / 10 :: real] 3 (3 + 3)) = 2
   \<and> addnoise_asl [1 / 2, - 1 / 4, 1 / 8] [1 / 10, - 1 / 10, 2 / 10, - 2 / 10, 1 / 10]
        16000 16 5 False (9 / 10) = Some (Inl ValueError_broadcast)"
proof -
  let ?clean = "[1 / 2, - 1 / 4, 1 / 8 :: real]"
  let ?noise = "[1 / 10, - 1 / 10, 2 / 10, - 2 / 10, 1 / 10 :: real]"
  have rs: "rand_start_of 5 3 (9 / 10) = 3"
    by (simp add: rand_start_of_def np_round_def Let_def)
  have l: "length ?clean = 3" "length ?noise = 5" by simp_all
  have h: "rand_start_of (length ?noise) (length ?clean) (9 / 10)
             = int (length ?noise) - int (length ?clean) + 1"
    unfolding l rs by simp
  have "length ?clean < length ?noise" "3 \<le> length ?clean" "0 < (16000::nat)" "2 \<le> (16::nat)"
    by simp_all
  from C5_last_start_short_segment [OF this h, of 5]
  show ?thesis unfolding l rs by simp
qed

text \<open>
  For every other start index the segment has the length of the clean buffer and so has
  the output.
\<close>

lemma addnoise_asl_length_ok:
  assumes "length clean < length noise" and "0 < srate" and "2 \<le> nbits"
      and "0 \<le> u" and "u < 1"
      and "rand_start_of (length noise) (length clean) u \<le> int (length noise) - int (length clean)"
  shows "\<exists>noisy b. addnoise_asl clean noise srate nbits snr False u = Some (Inr (noisy, b))
                   \<and> length noisy = length clean
                   \<and> length (np_slice noise (rand_start_of (length noise) (length clean) u)
                       (rand_start_of (length noise) (length clean) u + int (length clean)))
                       = length clean"
proof -
  let ?rs = "rand_start_of (length noise) (length clean) u"
  let ?seg = "np_slice noise ?rs (?rs + int (length clean))"
  obtain Px asl c0 where r: "asl_P56 clean srate nbits = Some (Inr (Px, asl, c0))"
    using asl_P56_returns [OF assms(2,3), of clean] by (metis prod_cases3)
  have "1 \<le> ?rs" using rand_start_range [OF assms(4,5,1)] by simp
  then have len: "length ?seg = length clean"
    using segment_length [of ?rs "length clean" noise] assms(1,6) by simp
  then show ?thesis
    using assms(1) by (simp add: addnoise_asl_def r Let_def np_add_def)
qed

subsection \<open>\<open>Additive\<close>: the normalisation loop\<close>

lemma in_range_small:
  assumes "noisy \<noteq> []" "\<forall>v \<in> set noisy. \<bar>v\<bar> < 1"
  shows "\<not> out_of_range noisy"
proof -
  have "Max (set noisy) < 1" using assms by (simp add: abs_less_iff)
  moreover have "- 1 < Min (set noisy)" using assms by (simp add: abs_less_iff)
  ultimately show ?thesis by (simp add: out_of_range_def)
qed

text \<open>
  The loop returns for every buffer, with a result within range: every iteration divides
  by at least 1.1.
\<close>

lemma declip_loop_returns_aux:
  "noisy \<noteq> [] \<Longrightarrow> 1 / 10 \<le> small \<Longrightarrow> \<forall>v \<in> set noisy. \<bar>v\<bar> < (11 / 10) ^ n
   \<Longrightarrow> \<exists>out small'. declip_loop noisy small = Some (out, small') \<and> \<not> out_of_range out
         \<and> length out = length noisy"
proof (induction n arbitrary: noisy small)
  case 0
  then have "\<not> out_of_range noisy" using in_range_small [of noisy] by simp
  then show ?case by (subst declip_loop.simps) simp
next
  case (Suc n)
  show ?case
  proof (cases "out_of_range noisy")
    case False
    then show ?thesis by (subst declip_loop.simps) simp
  next
    case True
    let ?noisy' = "map (\<lambda>v. v / (1 + small)) noisy"
    have ne: "?noisy' \<noteq> []" using Suc.prems(1) by simp
    have sm: "1 / 10 \<le> small + 1 / 10" using Suc.prems(2) by simp
    have "\<forall>v \<in> set ?noisy'. \<bar>v\<bar> < (11 / 10) ^ n"
    proof
      fix w assume "w \<in> set ?noisy'"
      then obtain v where v: "v \<in> set noisy" and w: "w = v / (1 + small)" by auto
      have p: "11 / 10 \<le> 1 + small" using Suc.prems(2) by simp
      have "\<bar>v\<bar> < (11 / 10) ^ n * (11 / 10)" using Suc.prems(3) v by (simp add: mult.commute)
      also have "\<dots> \<le> (11 / 10) ^ n * (1 + small)" using p by (simp add: mult_left_mono)
      finally have "\<bar>v\<bar> / (1 + small) < (11 / 10) ^ n"
        using p by (simp add: pos_divide_less_eq)
      then show "\<bar>w\<bar> < (11 / 10) ^ n" using p by (simp add: w abs_divide)
    qed
    from Suc.IH [OF ne sm this]
    obtain out small' where "declip_loop ?noisy' (small + 1 / 10) = Some (out, small')"
      and "\<not> out_of_range out" and "length out = length noisy" by auto
    with True show ?thesis by (subst declip_loop.simps) simp
  qed
qed

lemma declip_returns:
  assumes "noisy \<noteq> []"
  shows "\<exists>out. declip noisy = Some (Inr out) \<and> \<not> out_of_range out \<and> length out = length noisy"
proof (cases "out_of_range noisy")
  case False
  with assms show ?thesis by (simp add: declip_def)
next
  case True
  obtain n where n: "Max (abs ` set noisy) < (11 / 10) ^ n"
    using real_arch_pow [of "11 / 10" "Max (abs ` set noisy)"] by auto
  have "\<forall>v \<in> set noisy. \<bar>v\<bar> < (11 / 10) ^ n"
  proof
    fix v assume "v \<in> set noisy"
    then have "\<bar>v\<bar> \<le> Max (abs ` set noisy)" by simp
    with n show "\<bar>v\<bar> < (11 / 10) ^ n" by linarith
  qed
  from declip_loop_returns_aux [OF assms _ this, of "1 / 10"]
  obtain out small' where "declip_loop noisy (1 / 10) = Some (out, small')"
    and "\<not> out_of_range out" and "length out = length noisy" by auto
  with True assms show ?thesis by (simp add: declip_def)
qed

subsection \<open>\<open>Chopper\<close>: chops with non-negative bounds\<close>

text \<open>
  When no window bound is negative, a chop changes no sample outside the windows and
  keeps the length of the buffer.
\<close>

lemma length_np_slice_assign: "length (np_slice_assign xs b e v) = length xs"
  by (simp add: np_slice_assign_def Let_def)

lemma nth_np_slice_assign:
  assumes "j < length xs" "0 \<le> b" "0 \<le> e"
  shows "np_slice_assign xs b e v ! j = (if b \<le> int j \<and> int j < e then v else xs ! j)"
  using assms by (auto simp add: np_slice_assign_def np_index_def Let_def nth_enumerate_eq)

lemma chop_loop_frame:
  "chop_loop cfs srate regs ds i idxs wav = Inr out
   \<Longrightarrow> list_all (\<lambda>(b, e). 0 \<le> b \<and> 0 \<le> e) (chop_windows cfs srate regs ds i idxs)
   \<Longrightarrow> j < length wav
   \<Longrightarrow> list_all (\<lambda>(b, e). \<not> (b \<le> int j \<and> int j < e)) (chop_windows cfs srate regs ds i idxs)
   \<Longrightarrow> length out = length wav \<and> out ! j = wav ! j"
proof (induction idxs arbitrary: i wav)
  case Nil
  then show ?case by simp
next
  case (Cons c rest)
  obtain b e where w: "chop_window srate (regs ! c) (cfs ! d_factor ds i) (d_randn ds i) = (b, e)"
    by (cases "chop_window srate (regs ! c) (cfs ! d_factor ds i) (d_randn ds i)")
  let ?wav' = "np_slice_assign wav b e 0"
  from Cons.prems(1) have l: "chop_loop cfs srate regs ds (Suc i) rest ?wav' = Inr out"
    by (simp add: w split: if_splits)
  from Cons.prems(2) have nn: "0 \<le> b" "0 \<le> e"
    and r2: "list_all (\<lambda>(b, e). 0 \<le> b \<and> 0 \<le> e) (chop_windows cfs srate regs ds (Suc i) rest)"
    by (simp_all add: w)
  from Cons.prems(4) have out: "\<not> (b \<le> int j \<and> int j < e)"
    and r4: "list_all (\<lambda>(b, e). \<not> (b \<le> int j \<and> int j < e)) (chop_windows cfs srate regs ds (Suc i) rest)"
    by (simp_all add: w)
  have j': "j < length ?wav'" using Cons.prems(3) by (simp add: length_np_slice_assign)
  from Cons.IH [OF l r2 j' r4]
  have "length out = length ?wav'" "out ! j = ?wav' ! j" by simp_all
  moreover have "?wav' ! j = wav ! j"
    using nth_np_slice_assign [OF Cons.prems(3) nn, of 0] out by simp
  ultimately show ?case by (simp add: length_np_slice_assign)
qed

subsection \<open>\<open>Additive\<close>: one iteration of the normalisation loop\<close>




subsection \<open>\<open>Chopper\<close>: a waveform without speech regions\<close>

lemma py_int_close: "\<bar>of_int (py_int y) - y\<bar> < 1"
  unfolding py_int_def by (auto; linarith)

lemma f32_div_err:
  assumes "f32_accurate ops" "b \<noteq> 0" "q = a / b" "\<bar>q\<bar> \<le> 65536"
  shows "\<bar>f32_div ops a b - q\<bar> \<le> \<bar>q\<bar> / 2 ^ 20 + 1 / 2 ^ 100"
  using assms unfolding f32_accurate_def by blast

lemma astype_int16_trunc:
  assumes "f32_accurate ops" "\<bar>v\<bar> < 32768"
  shows "astype_int16 ops v = py_int v"
  using assms unfolding f32_accurate_def by blast

lemma vad_wav_short:
  assumes "length wav < 160"
  shows "vad_wav is_speech wav 16000 = Inr []"
proof -
  have "wav \<noteq> [] \<Longrightarrow> (length wav + 160 - 1) div 160 = 1"
    using assms by (cases wav) (simp_all add: div_nat_eqI)
  then have r: "range_step (length wav) 160 = (if wav = [] then [] else [0])"
    by (simp add: range_step_def)
  have "length (np_slice wav 0 160) < 160"
    using assms by (simp add: np_slice_def np_index_def Let_def)
  then show ?thesis
    by (simp add: vad_wav_def r vad_step_def Let_def)
qed

lemma no_regions_call:
  assumes "vad_wav (vad self) (map (astype_int16 ops) (Scale_call ops (1 / (2 ^ 15 - 1)) wav)) srate
             = Inr []"
  shows "Chopper_call ops self ds wav srate
           = Inr (Scale_call ops (2 ^ 15 - 1)
                    (map of_int (map (astype_int16 ops) (Scale_call ops (1 / (2 ^ 15 - 1)) wav))),
                  if chop_report self then Some [] else None)"
  using assms by (simp add: Chopper_call_def Let_def chop_wav_def)

lemma roundtrip_bound:
  assumes acc: "f32_accurate ops" and x: "\<bar>x\<bar> \<le> 1"
  shows "\<bar>f32_div ops (of_int (astype_int16 ops (f32_div ops x (1 / (2 ^ 15 - 1))))) (2 ^ 15 - 1) - x\<bar>
           < 2 / 32767"
proof -
  define d where "d = f32_div ops x (1 / (2 ^ 15 - 1))"
  define t where "t = astype_int16 ops d"
  define out where "out = f32_div ops (of_int t) (2 ^ 15 - 1)"
  have X: "\<bar>32767 * x\<bar> \<le> 32767" using x by (simp add: abs_mult)
  have "\<bar>d - 32767 * x\<bar> \<le> \<bar>32767 * x\<bar> / 2 ^ 20 + 1 / 2 ^ 100"
    unfolding d_def using acc X by (intro f32_div_err) simp_all
  moreover have "\<bar>32767 * x\<bar> / 2 ^ 20 \<le> 32767 / 2 ^ 20"
    using X by (simp add: divide_right_mono)
  moreover have "(32767::real) / 2 ^ 20 + 1 / 2 ^ 100 < 1 / 16" by simp
  ultimately have d2: "\<bar>d - 32767 * x\<bar> < 1 / 16" by linarith
  have dr: "\<bar>d\<bar> < 32768" using d2 X by linarith
  have t: "t = py_int d" unfolding t_def using acc dr by (rule astype_int16_trunc)
  have "\<bar>of_int t - d\<bar> < 1" unfolding t by (rule py_int_close)
  then have t2: "\<bar>of_int t - 32767 * x\<bar> < 17 / 16" using d2 by linarith
  then have tb: "\<bar>real_of_int t\<bar> < 32769" using X by linarith
  have q: "\<bar>real_of_int t / 32767\<bar> < 2" using tb by (simp add: abs_divide)
  have "\<bar>out - of_int t / 32767\<bar> \<le> \<bar>real_of_int t / 32767\<bar> / 2 ^ 20 + 1 / 2 ^ 100"
    unfolding out_def using acc q by (intro f32_div_err) simp_all
  moreover have "\<bar>real_of_int t / 32767\<bar> / 2 ^ 20 \<le> 2 / 2 ^ 20"
    using q by (simp add: divide_right_mono)
  moreover have "(2::real) / 2 ^ 20 + 1 / 2 ^ 100 < 1 / 2 ^ 18" by simp
  ultimately have o2: "\<bar>out - of_int t / 32767\<bar> < 1 / 2 ^ 18" by linarith
  have "\<bar>real_of_int t / 32767 - x\<bar> = \<bar>of_int t - 32767 * x\<bar> / 32767"
    by (simp add: abs_divide [symmetric] field_simps)
  also have "\<dots> < (17 / 16) / 32767" using t2 by (simp add: divide_strict_right_mono)
  finally have t3: "\<bar>real_of_int t / 32767 - x\<bar> < (17 / 16) / 32767" .
  have "(1::real) / 2 ^ 18 + (17 / 16) / 32767 < 2 / 32767" by simp
  with o2 t3 have "\<bar>out - x\<bar> < 2 / 32767" by linarith
  then show ?thesis by (simp add: out_def t_def d_def)
qed

lemma half_not_returned:
  assumes acc: "f32_accurate ops"
  shows "astype_int16 ops (f32_div ops (1 / 2) (1 / (2 ^ 15 - 1))) = 16383"
    and "f32_div ops 16383 (2 ^ 15 - 1) < 1 / 2"
proof -
  define d where "d = f32_div ops (1 / 2) (1 / (2 ^ 15 - 1))"
  have "\<bar>d - 32767 / 2\<bar> \<le> \<bar>32767 / 2\<bar> / 2 ^ 20 + 1 / 2 ^ 100"
    unfolding d_def using acc by (intro f32_div_err) simp_all
  moreover have "\<bar>32767 / 2 :: real\<bar> / 2 ^ 20 + 1 / 2 ^ 100 < 1 / 16" by simp
  ultimately have d2: "\<bar>d - 32767 / 2\<bar> < 1 / 16" by linarith
  then have "\<bar>d\<bar> < 32768" by linarith
  then have "astype_int16 ops d = py_int d" using acc by (intro astype_int16_trunc)
  moreover have "py_int d = 16383"
  proof -
    have "16383 \<le> d" "d < 16384" using d2 by linarith+
    then have "\<lfloor>d\<rfloor> = 16383" by linarith
    moreover have "0 \<le> d" using d2 by linarith
    ultimately show ?thesis by (simp add: py_int_def)
  qed
  ultimately show "astype_int16 ops (f32_div ops (1 / 2) (1 / (2 ^ 15 - 1))) = 16383"
    by (simp add: d_def)
  have "\<bar>f32_div ops 16383 (2 ^ 15 - 1) - 16383 / 32767\<bar>
          \<le> \<bar>16383 / 32767\<bar> / 2 ^ 20 + 1 / 2 ^ 100"
    using acc by (intro f32_div_err) simp_all
  moreover have "\<bar>16383 / 32767 :: real\<bar> / 2 ^ 20 + 1 / 2 ^ 100 < 1 / 2 - 16383 / 32767" by simp
  ultimately show "f32_div ops 16383 (2 ^ 15 - 1) < 1 / 2" by linarith
qed

text \<open>
  C9, as stated, fails at the outer call: whatever the single-precision operations do
  within their accuracy, the one-sample input \<open>[0.5]\<close>, in which no speech region is found,
  does not come back as \<open>[0.5]\<close>.  The integer sample is 16383, and 16383 divided by
  32767 is below 0.5.
\<close>

theorem C9_outer_call_counterexample:
  "\<not> (\<exists>ops. f32_accurate ops
          \<and> Chopper_call ops \<lparr>chop_factors = [(1 / 20, 1 / 40), (1 / 10, 1 / 20)], max_chops = 2,
                  vad = (\<lambda>frame srate. True), chop_report = False\<rparr>
               \<lparr>d_chops = 1, d_idxs = [], d_factor = (\<lambda>i. 0), d_randn = (\<lambda>i. 0)\<rparr> [1 / 2] 16000
             = Inr ([1 / 2], None))"
proof
  let ?self = "\<lparr>chop_factors = [(1 / 20, 1 / 40), (1 / 10, 1 / 20)], max_chops = 2,
                  vad = (\<lambda>(frame :: int list) (srate :: nat). True), chop_report = False\<rparr>"
  let ?ds = "\<lparr>d_chops = 1, d_idxs = [], d_factor = (\<lambda>i. 0), d_randn = (\<lambda>i. 0)\<rparr>"
  assume "\<exists>ops. f32_accurate ops \<and> Chopper_call ops ?self ?ds [1 / 2] 16000 = Inr ([1 / 2], None)"
  then obtain ops where acc: "f32_accurate ops"
    and c: "Chopper_call ops ?self ?ds [1 / 2] 16000 = Inr ([1 / 2], None)" by blast
  have "vad_wav (vad ?self) (map (astype_int16 ops) (Scale_call ops (1 / (2 ^ 15 - 1)) [1 / 2])) 16000
          = Inr []"
    by (intro vad_wav_short) (simp add: Scale_call_def)
  from no_regions_call [OF this, of ?ds]
  have "Chopper_call ops ?self ?ds [1 / 2] 16000
          = Inr ([f32_div ops (of_int (astype_int16 ops (f32_div ops (1 / 2) (1 / (2 ^ 15 - 1)))))
                    (2 ^ 15 - 1)], None)"
    by (simp add: Scale_call_def)
  with c have "f32_div ops (of_int (astype_int16 ops (f32_div ops (1 / 2) (1 / (2 ^ 15 - 1)))))
                 (2 ^ 15 - 1) = 1 / 2" by simp
  then have "f32_div ops 16383 (2 ^ 15 - 1) = 1 / 2"
    using half_not_returned(1) [OF acc] by simp
  with half_not_returned(2) [OF acc] show False by simp
qed

text \<open>
  C9 (amended): when region detection finds no speech regions, \<open>chop_wav\<close> returns its
  input unchanged, and the outer call returns those integer-domain samples converted back
  to unit floats, whatever the random draws: the input after the conversion to 16-bit
  integers and back.  For input samples in \<open>[-1, 1]\<close> and single-precision operations of the
  stated accuracy, every output sample is within \<open>2 / 32767\<close> of the input sample; it need
  not equal it.
\<close>

theorem C9_no_regions_round_trip:
  assumes "vad_wav (vad self) (map (astype_int16 ops) (Scale_call ops (1 / (2 ^ 15 - 1)) wav)) srate
             = Inr []"
  shows "chop_wav self ds iwav srate [] = Inr iwav
       \<and> Chopper_call ops self ds wav srate
           = Inr (Scale_call ops (2 ^ 15 - 1)
                    (map of_int (map (astype_int16 ops) (Scale_call ops (1 / (2 ^ 15 - 1)) wav))),
                  if chop_report self then Some [] else None)
       \<and> (f32_accurate ops \<and> (\<forall>x \<in> set wav. \<bar>x\<bar> \<le> 1) \<longrightarrow>
            (\<exists>out rep. Chopper_call ops self ds wav srate = Inr (out, rep)
                \<and> length out = length wav
                \<and> (\<forall>i < length wav. \<bar>out ! i - wav ! i\<bar> < 2 / 32767)))"
proof (intro conjI impI)
  show "chop_wav self ds iwav srate [] = Inr iwav" by (simp add: chop_wav_def)
next
  show c: "Chopper_call ops self ds wav srate
           = Inr (Scale_call ops (2 ^ 15 - 1)
                    (map of_int (map (astype_int16 ops) (Scale_call ops (1 / (2 ^ 15 - 1)) wav))),
                  if chop_report self then Some [] else None)"
    using assms by (rule no_regions_call)
  assume h: "f32_accurate ops \<and> (\<forall>x \<in> set wav. \<bar>x\<bar> \<le> 1)"
  let ?out = "Scale_call ops (2 ^ 15 - 1)
                (map of_int (map (astype_int16 ops) (Scale_call ops (1 / (2 ^ 15 - 1)) wav)))"
  have l: "length ?out = length wav" by (simp add: Scale_call_def)
  have "\<forall>i < length wav. \<bar>?out ! i - wav ! i\<bar> < 2 / 32767"
  proof (intro allI impI)
    fix i assume i: "i < length wav"
    then have "\<bar>wav ! i\<bar> \<le> 1" using h by simp
    from roundtrip_bound [OF conjunct1 [OF h] this]
    show "\<bar>?out ! i - wav ! i\<bar> < 2 / 32767" using i by (simp add: Scale_call_def)
  qed
  with c l show "\<exists>out rep. Chopper_call ops self ds wav srate = Inr (out, rep)
                \<and> length out = length wav
                \<and> (\<forall>i < length wav. \<bar>out ! i - wav ! i\<bar> < 2 / 32767)"
    by blast
qed

theorem C9_no_regions_round_trip_witness:
  "chop_wav \<lparr>chop_factors = [(1 / 20, 1 / 40), (1 / 10, 1 / 20)], max_chops = 2,
              vad = (\<lambda>frame srate. True), chop_report = False\<rparr>
        \<lparr>d_chops = 1, d_idxs = [], d_factor = (\<lambda>i. 0), d_randn = (\<lambda>i. 0)\<rparr> [3, - 4] 16000 []
     = Inr [3, - 4]
   \<and> Chopper_call
        \<lparr>f32_div = (\<lambda>a b. if a = 897 / 1000 \<and> b = 1 / 32767 then 29392 else a / b),
         astype_int16 = py_int\<rparr>
        \<lparr>chop_factors = [(1 / 20, 1 / 40), (1 / 10, 1 / 20)], max_chops = 2,
         vad = (\<lambda>frame srate. True), chop_report = False\<rparr>
        \<lparr>d_chops = 1, d_idxs = [], d_factor = (\<lambda>i. 0), d_randn = (\<lambda>i. 0)\<rparr>
        [897 / 1000, 1 / 2] 16000
     = Inr ([29392 / 32767, 16383 / 32767], None)
   \<and> \<bar>29392 / 32767 - 897 / 1000 :: real\<bar> < 2 / 32767
   \<and> \<bar>16383 / 32767 - 1 / 2 :: real\<bar> < 2 / 32767"
proof -
  let ?ops = "\<lparr>f32_div = (\<lambda>(a::real) (b::real). if a = 897 / 1000 \<and> b = 1 / 32767 then 29392 else a / b),
               astype_int16 = py_int\<rparr>"
  let ?self = "\<lparr>chop_factors = [(1 / 20, 1 / 40), (1 / 10, 1 / 20)], max_chops = 2,
                  vad = (\<lambda>(frame :: int list) (srate :: nat). True), chop_report = False\<rparr>"
  let ?ds = "\<lparr>d_chops = 1, d_idxs = [], d_factor = (\<lambda>i. 0), d_randn = (\<lambda>i. 0)\<rparr>"
  have acc: "f32_accurate ?ops"
    unfolding f32_accurate_def
  proof (intro conjI allI impI)
    fix a b :: real
    show "\<bar>f32_div ?ops a b - a / b\<bar> \<le> \<bar>a / b\<bar> / 2 ^ 20 + 1 / 2 ^ 100"
    proof (cases "a = 897 / 1000 \<and> b = 1 / 32767")
      case True
      then have eq: "a = 897 / 1000" "b = 1 / 32767" by simp_all
      show ?thesis unfolding eq by simp
    next
      case False
      then show ?thesis by auto
    qed
  next
    fix v :: real
    show "astype_int16 ?ops v = py_int v" by simp
  qed
  have b: "\<forall>x \<in> set [897 / 1000, 1 / 2 :: real]. \<bar>x\<bar> \<le> 1" by simp
  have h: "vad_wav (vad ?self)
             (map (astype_int16 ?ops) (Scale_call ?ops (1 / (2 ^ 15 - 1)) [897 / 1000, 1 / 2])) 16000
             = Inr []"
    by (intro vad_wav_short) (simp add: Scale_call_def)
  from C9_no_regions_round_trip [OF h, of ?ds "[3, - 4]"] acc b
  show ?thesis
    by (simp add: Scale_call_def py_int_def)
qed

end
